theory Spec2Isabelle
  imports Main "HOL-Library.AList"
begin

section \<open>Strings, bytes and errors\<close>

text \<open>
  A Python \<open>str\<close> is a sequence of Unicode code points and is modelled as a list of
  natural numbers; \<open>bytes\<close> is a list of numbers below 256. String literals of the
  source are written with \<open>lit\<close>, which maps each ASCII character to its code point;
  code points outside ASCII (the emoji of the user interface) are written as numbers.
\<close>

type_synonym pystr = "nat list"

definition lit :: "string \<Rightarrow> pystr" where
  "lit s = map of_char s"

text \<open>
  Every exception the program can meet is a value. \<open>UnicodeDecodeError\<close> is raised by
  \<open>bytes.decode\<close>, \<open>LibraryError\<close> stands for whatever python-docx or PyPDF2 raise on a
  file they cannot read, \<open>RemoteCallFailure\<close> for whatever the completion client raises.
  \<open>PatternNotModelled\<close> marks a regular expression that uses a construct outside the
  fragment of \<open>re\<close> modelled below; it is shown never to arise from \<open>check_clauses\<close>.
\<close>

datatype error = UnicodeDecodeError | LibraryError | RemoteCallFailure | PatternNotModelled

section \<open>The parts of the Unicode database the program relies on\<close>

text \<open>
  \<open>str.lower\<close> and the word class \<open>\w\<close> of \<open>re\<close> are fixed by the Unicode character
  database, which is not part of the repository. On ASCII both are written out below; for
  a code point above 127 they are read from the tables taken as a parameter:
  \<open>uni_lower s i\<close> is what position \<open>i\<close> of \<open>s\<close> lowercases to (a list, since one code
  point may become several, and a function of the whole string, since capital sigma
  depends on its neighbours), \<open>uni_alnum c\<close> says whether \<open>c\<close> is alphanumeric.
\<close>

record unicode_tables =
  uni_lower :: "pystr \<Rightarrow> nat \<Rightarrow> pystr"
  uni_alnum :: "nat \<Rightarrow> bool"

text \<open>Tables that leave every code point above ASCII alone; used to run ASCII examples.\<close>

definition plain_tables :: unicode_tables where
  "plain_tables = \<lparr>uni_lower = (\<lambda>s i. [s ! i]), uni_alnum = (\<lambda>c. False)\<rparr>"

definition ascii_upper :: "nat \<Rightarrow> bool" where
  "ascii_upper c = (65 \<le> c \<and> c \<le> 90)"

definition ascii_alnum :: "nat \<Rightarrow> bool" where
  "ascii_alnum c = ((48 \<le> c \<and> c \<le> 57) \<or> (65 \<le> c \<and> c \<le> 90) \<or> (97 \<le> c \<and> c \<le> 122))"

definition ascii_lower :: "nat \<Rightarrow> nat" where
  "ascii_lower c = (if ascii_upper c then c + 32 else c)"

fun lower_from :: "unicode_tables \<Rightarrow> pystr \<Rightarrow> nat \<Rightarrow> pystr \<Rightarrow> pystr" where
  "lower_from U s i [] = []"
| "lower_from U s i (c # cs) =
     (if c < 128 then [ascii_lower c] else uni_lower U s i) @ lower_from U s (Suc i) cs"

text \<open>\<open>text.lower()\<close>\<close>

definition py_lower :: "unicode_tables \<Rightarrow> pystr \<Rightarrow> pystr" where
  "py_lower U s = lower_from U s 0 s"

text \<open>The class \<open>\w\<close> of a \<open>str\<close> pattern: alphanumeric or the underscore.\<close>

definition is_word :: "unicode_tables \<Rightarrow> nat \<Rightarrow> bool" where
  "is_word U c = (if c < 128 then ascii_alnum c \<or> c = 95 else uni_alnum U c)"

section \<open>The fragment of the \<open>re\<close> module the clause checker uses\<close>

text \<open>
  \<open>re.escape\<close> puts a backslash before each of the characters
  \<open>( ) [ ] { } ? * + - | ^ $ \ . & ~ #\<close>, space, tab, newline, carriage return, vertical
  tab and form feed, and leaves every other character as it is.
\<close>

definition special_chars :: "nat list" where
  "special_chars =
     lit ''()[]{}?*+-|^$'' @ [92] @ lit ''.&~# '' @ [9, 10, 13, 11, 12]"

definition re_escape :: "pystr \<Rightarrow> pystr" where
  "re_escape pattern = concat (map (\<lambda>c. if c \<in> set special_chars then [92, c] else [c]) pattern)"

text \<open>
  The parser of \<open>re\<close> reads a pattern from left to right. The characters
  \<open>. \ [ { ( ) * + ? ^ $ |\<close> are operators; a backslash followed by \<open>b\<close> is the
  word-boundary assertion, a backslash followed by another ASCII letter or a digit is a
  character class, a back reference or an error, and a backslash followed by anything else
  is that character taken literally. The model keeps literals and word boundaries and
  answers \<open>PatternNotModelled\<close> to everything else, a backslash that ends the pattern
  included.
\<close>

datatype re_item = Literal nat | At_Boundary

definition regex_operators :: "nat list" where
  "regex_operators = lit ''.[{()*+?^$|''"

definition cons_item :: "re_item \<Rightarrow> error + re_item list \<Rightarrow> error + re_item list" where
  "cons_item x r = (case r of Inl e \<Rightarrow> Inl e | Inr xs \<Rightarrow> Inr (x # xs))"

fun sre_parse :: "pystr \<Rightarrow> error + re_item list" where
  "sre_parse [] = Inr []"
| "sre_parse [c] =
     (if c = 92 \<or> c \<in> set regex_operators then Inl PatternNotModelled
      else Inr [Literal c])"
| "sre_parse (c # d # ds) =
     (if c = 92 then
        (if d = 98 then cons_item At_Boundary (sre_parse ds)
         else if ascii_alnum d then Inl PatternNotModelled
         else cons_item (Literal d) (sre_parse ds))
      else if c \<in> set regex_operators then Inl PatternNotModelled
      else cons_item (Literal c) (sre_parse (d # ds)))"

text \<open>
  \<open>\b\<close> holds at a position when exactly one of the character before it and the character
  after it is a word character; beyond either end of the string there is no word
  character. \<open>prev\<close> is the character before the position, if any.
\<close>

definition word_opt :: "unicode_tables \<Rightarrow> nat option \<Rightarrow> bool" where
  "word_opt U x = (case x of None \<Rightarrow> False | Some c \<Rightarrow> is_word U c)"

definition next_char :: "pystr \<Rightarrow> nat option" where
  "next_char rest = (case rest of [] \<Rightarrow> None | x # xs \<Rightarrow> Some x)"

definition at_boundary :: "unicode_tables \<Rightarrow> nat option \<Rightarrow> pystr \<Rightarrow> bool" where
  "at_boundary U prev rest = (word_opt U prev \<noteq> word_opt U (next_char rest))"

text \<open>
  Matching a sequence of items at one position: the number of characters consumed, or
  \<open>None\<close>. Without repetition or alternation there is nothing to backtrack over.
\<close>

fun match_here :: "unicode_tables \<Rightarrow> re_item list \<Rightarrow> nat option \<Rightarrow> pystr \<Rightarrow> nat option" where
  "match_here U [] prev rest = Some 0"
| "match_here U (Literal c # its) prev [] = None"
| "match_here U (Literal c # its) prev (x # xs) =
     (if x = c then map_option Suc (match_here U its (Some x) xs) else None)"
| "match_here U (At_Boundary # its) prev rest =
     (if at_boundary U prev rest then match_here U its prev rest else None)"

text \<open>\<open>re.search\<close> tries every start position from the left; the result is the span of the first match.\<close>

fun scan :: "unicode_tables \<Rightarrow> re_item list \<Rightarrow> nat option \<Rightarrow> nat \<Rightarrow> pystr \<Rightarrow> (nat \<times> nat) option" where
  "scan U its prev pos rest =
     (case match_here U its prev rest of
        Some n \<Rightarrow> Some (pos, pos + n)
      | None \<Rightarrow> (case rest of [] \<Rightarrow> None | x # xs \<Rightarrow> scan U its (Some x) (Suc pos) xs))"

definition re_search :: "unicode_tables \<Rightarrow> pystr \<Rightarrow> pystr \<Rightarrow> error + (nat \<times> nat) option" where
  "re_search U pattern string =
     (case sre_parse pattern of
        Inl e \<Rightarrow> Inl e
      | Inr its \<Rightarrow> Inr (scan U its None 0 string))"

section \<open>Clause keywords and the clause checker\<close>

text \<open>
  A \<open>dict\<close> keeps its keys in insertion order, so a taxonomy and a report are association
  lists; \<open>results[clause] = v\<close> is \<open>AList.update\<close>, which overwrites the value of a key
  already present and appends a new key at the end.
\<close>

type_synonym taxonomy = "(pystr \<times> pystr list) list"
type_synonym report = "(pystr \<times> bool) list"

definition commercial_clauses :: taxonomy where
  "commercial_clauses =
    [(lit ''Payment Terms'', [lit ''payment terms'', lit ''terms of payment'', lit ''payment schedule'']),
     (lit ''IP'', [lit ''intellectual property'', lit ''IP rights'', lit ''ownership of work'']),
     (lit ''Delivery Terms'', [lit ''delivery terms'', lit ''delivery schedule'', lit ''shipment terms'']),
     (lit ''Warranties and Representations'', [lit ''warranties'', lit ''representations'', lit ''guarantees''])]"

definition legal_clauses :: taxonomy where
  "legal_clauses =
    [(lit ''Indemnification'', [lit ''indemnification'', lit ''hold harmless'']),
     (lit ''Termination'', [lit ''termination'', lit ''end of agreement'', lit ''contract termination'']),
     (lit ''Confidentiality'', [lit ''confidentiality'', lit ''non-disclosure'', lit ''nda'']),
     (lit ''Limitation of Liability'', [lit ''limitation of liability'', lit ''liability cap'', lit ''liability limit''])]"

text \<open>The pattern built for one keyword: \<open>r"\b" + re.escape(keyword) + r"\b"\<close>.\<close>

definition keyword_pattern :: "pystr \<Rightarrow> pystr" where
  "keyword_pattern keyword = [92, 98] @ re_escape keyword @ [92, 98]"

text \<open>
  \<open>any(re.search(...) for keyword in keywords)\<close>: the keywords are tried in order and the
  generator is not advanced past the first match.
\<close>

fun any_keyword :: "unicode_tables \<Rightarrow> pystr \<Rightarrow> pystr list \<Rightarrow> error + bool" where
  "any_keyword U text_lower [] = Inr False"
| "any_keyword U text_lower (keyword # keywords) =
     (case re_search U (keyword_pattern keyword) text_lower of
        Inl e \<Rightarrow> Inl e
      | Inr (Some m) \<Rightarrow> Inr True
      | Inr None \<Rightarrow> any_keyword U text_lower keywords)"

fun check_loop :: "unicode_tables \<Rightarrow> pystr \<Rightarrow> report \<Rightarrow> taxonomy \<Rightarrow> error + report" where
  "check_loop U text_lower results [] = Inr results"
| "check_loop U text_lower results ((clause, keywords) # rest) =
     (case any_keyword U text_lower keywords of
        Inl e \<Rightarrow> Inl e
      | Inr b \<Rightarrow> check_loop U text_lower (AList.update clause b results) rest)"

definition check_clauses :: "unicode_tables \<Rightarrow> pystr \<Rightarrow> taxonomy \<Rightarrow> error + report" where
  "check_clauses U text clause_dict = check_loop U (py_lower U text) [] clause_dict"

section \<open>File extraction functions\<close>

text \<open>
  \<open>bytes.decode("utf-8")\<close> with the default strict error handling: the well-formed byte
  sequences of UTF-8 and nothing else (no overlong form, no surrogate, nothing above
  U+10FFFF); anything else raises \<open>UnicodeDecodeError\<close>.
\<close>

definition continuation :: "nat \<Rightarrow> bool" where
  "continuation b = (128 \<le> b \<and> b \<le> 191)"

definition cons_char :: "nat \<Rightarrow> error + pystr \<Rightarrow> error + pystr" where
  "cons_char c r = (case r of Inl e \<Rightarrow> Inl e | Inr cs \<Rightarrow> Inr (c # cs))"

fun utf8_decode :: "nat list \<Rightarrow> error + pystr" where
  "utf8_decode [] = Inr []"
| "utf8_decode (b0 # bs) =
     (if b0 < 128 then cons_char b0 (utf8_decode bs)
      else if 194 \<le> b0 \<and> b0 \<le> 223 then
        (case bs of
           b1 # r \<Rightarrow>
             if continuation b1
             then cons_char ((b0 - 192) * 64 + (b1 - 128)) (utf8_decode r)
             else Inl UnicodeDecodeError
         | _ \<Rightarrow> Inl UnicodeDecodeError)
      else if 224 \<le> b0 \<and> b0 \<le> 239 then
        (case bs of
           b1 # b2 # r \<Rightarrow>
             if (if b0 = 224 then 160 else 128) \<le> b1 \<and> b1 \<le> (if b0 = 237 then 159 else 191)
                \<and> continuation b2
             then cons_char ((b0 - 224) * 4096 + (b1 - 128) * 64 + (b2 - 128)) (utf8_decode r)
             else Inl UnicodeDecodeError
         | _ \<Rightarrow> Inl UnicodeDecodeError)
      else if 240 \<le> b0 \<and> b0 \<le> 244 then
        (case bs of
           b1 # b2 # b3 # r \<Rightarrow>
             if (if b0 = 240 then 144 else 128) \<le> b1 \<and> b1 \<le> (if b0 = 244 then 143 else 191)
                \<and> continuation b2 \<and> continuation b3
             then cons_char ((b0 - 240) * 262144 + (b1 - 128) * 4096 + (b2 - 128) * 64 + (b3 - 128))
                    (utf8_decode r)
             else Inl UnicodeDecodeError
         | _ \<Rightarrow> Inl UnicodeDecodeError)
      else Inl UnicodeDecodeError)"

text \<open>
  An uploaded file as \<open>extract_text\<close> sees it: its declared media type, its bytes, and what
  the two parsing libraries make of it. python-docx and PyPDF2 are not part of the
  repository, so their results are part of the input: \<open>docx_paragraphs\<close> is the text of
  each paragraph of \<open>Document(file)\<close>, \<open>pdf_pages\<close> is what \<open>extract_text()\<close> gives for each
  page of \<open>PdfReader(file)\<close> (a string, possibly empty, or \<open>None\<close>); either library may
  raise instead.
\<close>

record uploaded_file =
  file_type :: pystr
  getvalue :: "nat list"
  docx_paragraphs :: "error + pystr list"
  pdf_pages :: "error + (error + pystr option) list"

text \<open>\<open>sep.join(xs)\<close>\<close>

fun str_join :: "pystr \<Rightarrow> pystr list \<Rightarrow> pystr" where
  "str_join sep [] = []"
| "str_join sep [x] = x"
| "str_join sep (x # y # ys) = x @ sep @ str_join sep (y # ys)"

definition startswith :: "pystr \<Rightarrow> pystr \<Rightarrow> bool" where
  "startswith s p = (take (length p) s = p)"

definition extract_text_from_docx :: "uploaded_file \<Rightarrow> error + pystr" where
  "extract_text_from_docx file =
     (case docx_paragraphs file of
        Inl e \<Rightarrow> Inl e
      | Inr paragraphs \<Rightarrow> Inr (str_join [10] paragraphs))"

text \<open>The loop over \<open>reader.pages\<close>; \<open>text\<close> is the list collected so far.\<close>

fun pdf_loop :: "pystr list \<Rightarrow> (error + pystr option) list \<Rightarrow> error + pystr list" where
  "pdf_loop text [] = Inr text"
| "pdf_loop text (page # pages) =
     (case page of
        Inl e \<Rightarrow> Inl e
      | Inr None \<Rightarrow> pdf_loop text pages
      | Inr (Some page_text) \<Rightarrow>
          if page_text \<noteq> [] then pdf_loop (text @ [page_text]) pages
          else pdf_loop text pages)"

definition extract_text_from_pdf :: "uploaded_file \<Rightarrow> error + pystr" where
  "extract_text_from_pdf file =
     (case pdf_pages file of
        Inl e \<Rightarrow> Inl e
      | Inr pages \<Rightarrow>
          (case pdf_loop [] pages of
             Inl e \<Rightarrow> Inl e
           | Inr text \<Rightarrow> Inr (str_join [10] text)))"

text \<open>
  \<open>StringIO(s).read()\<close> gives back \<open>s\<close>: with the default \<open>newline\<close> argument no line
  ending is translated.
\<close>

definition stringio_read :: "pystr \<Rightarrow> pystr" where
  "stringio_read s = s"

definition docx_type :: pystr where
  "docx_type = lit ''application/vnd.openxmlformats-officedocument.wordprocessingml.document''"

definition pdf_type :: pystr where
  "pdf_type = lit ''application/pdf''"

text \<open>
  The result of \<open>extract_text\<close> is \<open>Inl\<close> of the exception raised, or \<open>Inr\<close> of the value
  returned, which is a string or \<open>None\<close>.
\<close>

definition some_text :: "error + pystr \<Rightarrow> error + pystr option" where
  "some_text r = (case r of Inl e \<Rightarrow> Inl e | Inr s \<Rightarrow> Inr (Some s))"

definition extract_text :: "uploaded_file \<Rightarrow> error + pystr option" where
  "extract_text file =
     (if file_type file = docx_type then some_text (extract_text_from_docx file)
      else if file_type file = pdf_type then some_text (extract_text_from_pdf file)
      else if startswith (file_type file) (lit ''text/'') then
        (case utf8_decode (getvalue file) of
           Inl e \<Rightarrow> Inl e
         | Inr decoded \<Rightarrow> Inr (Some (stringio_read decoded)))
      else Inr None)"

section \<open>GPT functions\<close>

text \<open>
  A request to the completion service is a model name and a list of messages, each a role
  and a content. The service is outside the program: \<open>chat\<close> maps a request and the state
  of the outside world to the content of the first choice of the response, or to the
  exception the client raises, and to the next state of the world. A run of the program
  carries what the page shows so far, the requests sent so far and the world.
\<close>

record request =
  model :: pystr
  messages :: "(pystr \<times> pystr) list"

datatype ui =
  Title pystr | File_Uploader pystr | Spinner pystr | Error pystr | Subheader pystr
  | Write pystr | Button pystr | Markdown pystr

record 'w run =
  page :: "ui list"
  requests :: "request list"
  world :: 'w

type_synonym 'w service = "request \<Rightarrow> 'w \<Rightarrow> (error + pystr) \<times> 'w"

type_synonym ('w, 'a) prog = "'w run \<Rightarrow> (error + 'a) \<times> 'w run"

text \<open>Sequencing: an exception ends the run where it is raised.\<close>

definition bind_prog :: "('w, 'a) prog \<Rightarrow> ('a \<Rightarrow> ('w, 'b) prog) \<Rightarrow> ('w, 'b) prog" where
  "bind_prog m f st = (case m st of (Inl e, st') \<Rightarrow> (Inl e, st') | (Inr a, st') \<Rightarrow> f a st')"

definition return_prog :: "'a \<Rightarrow> ('w, 'a) prog" where
  "return_prog a st = (Inr a, st)"

definition lift_prog :: "error + 'a \<Rightarrow> ('w, 'a) prog" where
  "lift_prog r st = (r, st)"

definition display :: "ui list \<Rightarrow> ('w, unit) prog" where
  "display items st = (Inr (), st\<lparr>page := page st @ items\<rparr>)"

text \<open>\<open>client.chat.completions.create(...)\<close> followed by \<open>.choices[0].message.content\<close>.\<close>

definition create :: "'w service \<Rightarrow> request \<Rightarrow> ('w, pystr) prog" where
  "create chat req st =
     (case chat req (world st) of
        (r, w) \<Rightarrow> (r, st\<lparr>requests := requests st @ [req], world := w\<rparr>))"

definition gpt_model :: pystr where
  "gpt_model = lit ''gpt-4o-mini''"

definition summarize :: "'w service \<Rightarrow> pystr \<Rightarrow> ('w, pystr) prog" where
  "summarize chat document =
     create chat \<lparr>model = gpt_model, messages =
       [(lit ''system'', lit ''You're an exceptional lawyer skilled at distilling long contracts into short paragraphs that are easy to understand and digest.''),
        (lit ''user'', lit ''Provide an executive summary for the following contract: '' @ document)]\<rparr>"

definition get_obligations :: "'w service \<Rightarrow> pystr \<Rightarrow> ('w, pystr) prog" where
  "get_obligations chat document =
     create chat \<lparr>model = gpt_model, messages =
       [(lit ''user'', lit ''Highlight the key obligations from the following contract: '' @ document)]\<rparr>"

definition extract_important_dates :: "'w service \<Rightarrow> pystr \<Rightarrow> ('w, pystr) prog" where
  "extract_important_dates chat document =
     create chat \<lparr>model = gpt_model, messages =
       [(lit ''user'', lit ''Find all important dates and deadlines in this contract: '' @ document)]\<rparr>"

definition extract_termination_clauses :: "'w service \<Rightarrow> pystr \<Rightarrow> ('w, pystr) prog" where
  "extract_termination_clauses chat document =
     create chat \<lparr>model = gpt_model, messages =
       [(lit ''user'', lit ''Highlight the termination clauses in this contract: '' @ document)]\<rparr>"

definition highlight_confidentiality_noncompete :: "'w service \<Rightarrow> pystr \<Rightarrow> ('w, pystr) prog" where
  "highlight_confidentiality_noncompete chat document =
     create chat \<lparr>model = gpt_model, messages =
       [(lit ''user'', lit ''Identify confidentiality and non-compete clauses in this contract: '' @ document)]\<rparr>"

section \<open>Streamlit UI\<close>

text \<open>One line of the clause presence checker: the clause name, then a mark and Yes or No.\<close>

definition clause_line :: "pystr \<times> bool \<Rightarrow> ui" where
  "clause_line = (\<lambda>(clause, exists).
     Write (clause @ lit '': '' @ (if exists then [0x2705] @ lit '' Yes'' else [0x274C] @ lit '' No'')))"

definition preview :: "pystr \<Rightarrow> pystr" where
  "preview text = take 2000 text @ (if length text > 2000 then lit ''...'' else [])"

text \<open>The body of \<open>if st.button(...)\<close>: five requests, two clause checks, then the display.\<close>

definition analyze :: "'w service \<Rightarrow> unicode_tables \<Rightarrow> pystr \<Rightarrow> ('w, unit) prog" where
  "analyze chat U text =
     bind_prog (display [Spinner (lit ''Analyzing...'')]) (\<lambda>_.
     bind_prog (summarize chat text) (\<lambda>summary.
     bind_prog (get_obligations chat text) (\<lambda>obligations.
     bind_prog (extract_important_dates chat text) (\<lambda>dates.
     bind_prog (extract_termination_clauses chat text) (\<lambda>termination.
     bind_prog (highlight_confidentiality_noncompete chat text) (\<lambda>confidentiality.
     bind_prog (lift_prog (check_clauses U text commercial_clauses)) (\<lambda>commercial_results.
     bind_prog (lift_prog (check_clauses U text legal_clauses)) (\<lambda>legal_results.
     display
       ([Subheader ([0x1F4CC] @ lit '' Executive Summary''), Write summary,
         Subheader ([0x1F4CC] @ lit '' Key Obligations''), Write obligations,
         Subheader ([0x1F4CC] @ lit '' Important Dates / Deadlines''), Write dates,
         Subheader ([0x1F4CC] @ lit '' Termination Clauses''), Write termination,
         Subheader ([0x1F4CC] @ lit '' Confidentiality and Non-Compete Clauses''), Write confidentiality,
         Subheader (lit ''Clause Presence Checker''),
         Markdown (lit ''###  Commercial Clauses '' @ [0x1F6D2])]
        @ map clause_line commercial_results
        @ [Markdown (lit ''### Legal Clauses '' @ [0x2696, 0xFE0F])]
        @ map clause_line legal_results)))))))))"

text \<open>
  \<open>main\<close>. Its inputs are what the two widgets return: the uploaded file, if any, and
  whether the button is pressed. \<open>not text\<close> holds of \<open>None\<close> and of the empty string.
  The check of the API key, which runs once when the module is loaded and before \<open>main\<close>,
  is not modelled: \<open>main\<close> is the program once the client exists.
\<close>

definition main :: "'w service \<Rightarrow> unicode_tables \<Rightarrow> uploaded_file option \<Rightarrow> bool \<Rightarrow> ('w, unit) prog" where
  "main chat U uploaded_file pressed =
     bind_prog (display [Title ([0x1F4DC] @ lit '' Contract Analyzer with Clause Checker''),
                         File_Uploader (lit ''Upload your contract file (PDF, DOCX, TXT)'')]) (\<lambda>_.
     case uploaded_file of
       None \<Rightarrow> return_prog ()
     | Some file \<Rightarrow>
         bind_prog (display [Spinner (lit ''Extracting text from file...'')]) (\<lambda>_.
         bind_prog (lift_prog (extract_text file)) (\<lambda>text.
         if text = None \<or> text = Some [] then
           display [Error (lit ''Unsupported file type or unable to extract text.'')]
         else
           bind_prog (display [Subheader ([0x1F4C4] @ lit '' Contract Text Preview''),
                               Write (preview (the text)),
                               Button ([0x1F50D] @ lit '' Analyze Contract'')]) (\<lambda>_.
           if pressed then analyze chat U (the text) else return_prog ()))))"

text \<open>A run starts with an empty page and no request sent.\<close>

definition start :: "'w \<Rightarrow> 'w run" where
  "start w = \<lparr>page = [], requests = [], world = w\<rparr>"

section \<open>Runs of the program used in the statements below\<close>

text \<open>
  What the page shows when the extracted text is refused, and what it shows when the
  analysis of \<open>text\<close> has begun and no result is displayed yet.
\<close>

definition refusal_page :: "ui list" where
  "refusal_page =
     [Title ([0x1F4DC] @ lit '' Contract Analyzer with Clause Checker''),
      File_Uploader (lit ''Upload your contract file (PDF, DOCX, TXT)''),
      Spinner (lit ''Extracting text from file...''),
      Error (lit ''Unsupported file type or unable to extract text.'')]"

definition analysis_page :: "pystr \<Rightarrow> ui list" where
  "analysis_page text =
     [Title ([0x1F4DC] @ lit '' Contract Analyzer with Clause Checker''),
      File_Uploader (lit ''Upload your contract file (PDF, DOCX, TXT)''),
      Spinner (lit ''Extracting text from file...''),
      Subheader ([0x1F4C4] @ lit '' Contract Text Preview''),
      Write (preview text),
      Button ([0x1F50D] @ lit '' Analyze Contract''),
      Spinner (lit ''Analyzing...'')]"

text \<open>
  A completion service that fails on the request for dates and deadlines and answers
  every other request; the outside world has no state of its own.
\<close>

definition dates_down :: "unit service" where
  "dates_down req w =
     (if list_ex (\<lambda>(role, content). startswith content (lit ''Find all important dates'')) (messages req)
      then Inl RemoteCallFailure else Inr (lit ''ok''), w)"

section \<open>What the specification says of the clause checker\<close>

text \<open>
  The specification speaks of a phrase occurring in the text between word boundaries.
  \<open>word_before s i\<close> and \<open>word_after s i\<close> say whether the character just before, and
  the character at, position \<open>i\<close> of \<open>s\<close> is a word character; beyond the ends of the
  string neither holds. A word boundary is a position where the two differ.
\<close>

definition word_before :: "unicode_tables \<Rightarrow> pystr \<Rightarrow> nat \<Rightarrow> bool" where
  "word_before U s i = (0 < i \<and> i \<le> length s \<and> is_word U (s ! (i - 1)))"

definition word_after :: "unicode_tables \<Rightarrow> pystr \<Rightarrow> nat \<Rightarrow> bool" where
  "word_after U s i = (i < length s \<and> is_word U (s ! i))"

definition word_boundary :: "unicode_tables \<Rightarrow> pystr \<Rightarrow> nat \<Rightarrow> bool" where
  "word_boundary U s i = (word_before U s i \<noteq> word_after U s i)"

text \<open>The characters of \<open>phrase\<close> stand in \<open>s\<close> from position \<open>i\<close> on.\<close>

definition occurs_at :: "pystr \<Rightarrow> pystr \<Rightarrow> nat \<Rightarrow> bool" where
  "occurs_at phrase s i = (i + length phrase \<le> length s \<and> take (length phrase) (drop i s) = phrase)"

text \<open>The phrase occurs in \<open>s\<close>, at some position, with a word boundary on each side.\<close>

definition phrase_occurs :: "unicode_tables \<Rightarrow> pystr \<Rightarrow> pystr \<Rightarrow> bool" where
  "phrase_occurs U phrase s =
     list_ex (\<lambda>i. occurs_at phrase s i \<and> word_boundary U s i
                \<and> word_boundary U s (i + length phrase)) [0..<Suc (length s)]"

text \<open>
  The phrase occurs in \<open>s\<close> bounded by non-word characters: no word character stands
  just before it or just after it (an end of the string is not a word character).
\<close>

definition bounded_by_non_word :: "unicode_tables \<Rightarrow> pystr \<Rightarrow> pystr \<Rightarrow> bool" where
  "bounded_by_non_word U phrase s =
     list_ex (\<lambda>i. occurs_at phrase s i \<and> \<not> word_before U s i
                \<and> \<not> word_after U s (i + length phrase)) [0..<Suc (length s)]"

text \<open>A phrase that begins and ends with a word character.\<close>

definition word_edged :: "unicode_tables \<Rightarrow> pystr \<Rightarrow> bool" where
  "word_edged U phrase = (phrase \<noteq> [] \<and> is_word U (hd phrase) \<and> is_word U (last phrase))"

text \<open>Some phrase of the list occurs between word boundaries.\<close>

definition present :: "unicode_tables \<Rightarrow> pystr list \<Rightarrow> pystr \<Rightarrow> bool" where
  "present U keywords s = list_ex (\<lambda>keyword. phrase_occurs U keyword s) keywords"

text \<open>Some phrase of the list occurs bounded by non-word characters.\<close>

definition present_bounded :: "unicode_tables \<Rightarrow> pystr list \<Rightarrow> pystr \<Rightarrow> bool" where
  "present_bounded U keywords s = list_ex (\<lambda>keyword. bounded_by_non_word U keyword s) keywords"

text \<open>
  The report the specification describes: one entry for each clause of the taxonomy, in
  its order, saying whether a phrase of the clause occurs in the lowercased text.
\<close>

definition spec_report :: "unicode_tables \<Rightarrow> pystr \<Rightarrow> taxonomy \<Rightarrow> report" where
  "spec_report U text clause_dict =
     map (\<lambda>(clause, keywords). (clause, present U keywords (py_lower U text))) clause_dict"

text \<open>Writing one clause into the report, as one round of the loop of \<open>check_clauses\<close> does.\<close>

definition record_clause :: "unicode_tables \<Rightarrow> pystr \<Rightarrow> pystr \<times> pystr list \<Rightarrow> report \<Rightarrow> report" where
  "record_clause U s = (\<lambda>(clause, keywords). AList.update clause (present U keywords s))"

section \<open>Escaped keywords parse to literals\<close>

lemma special_chars_set:
  "set special_chars = {40, 41, 91, 93, 123, 125, 63, 42, 43, 45, 124, 94, 36, 92, 46, 38, 126, 35, 32, 9, 10, 13, 11, 12}"
  by (simp add: special_chars_def lit_def)

lemma regex_operators_set:
  "set regex_operators = {46, 91, 123, 40, 41, 42, 43, 63, 94, 36, 124}"
  by (simp add: regex_operators_def lit_def)

lemma special_not_alnum: "c \<in> set special_chars \<Longrightarrow> c \<noteq> 98 \<and> \<not> ascii_alnum c"
  unfolding special_chars_set ascii_alnum_def by auto

lemma operators_special: "c \<in> set regex_operators \<Longrightarrow> c \<in> set special_chars"
  unfolding special_chars_set regex_operators_set by auto

lemma backslash_special: "92 \<in> set special_chars"
  unfolding special_chars_set by simp

lemma sre_parse_plain:
  "c \<noteq> 92 \<Longrightarrow> c \<notin> set regex_operators \<Longrightarrow> sre_parse (c # cs) = cons_item (Literal c) (sre_parse cs)"
  by (cases cs) (simp_all add: cons_item_def)

lemma sre_parse_escaped:
  "d \<noteq> 98 \<Longrightarrow> \<not> ascii_alnum d \<Longrightarrow> sre_parse (92 # d # ds) = cons_item (Literal d) (sre_parse ds)"
  by simp

lemma sre_parse_re_escape:
  "sre_parse (re_escape kw @ rest) =
     (case sre_parse rest of Inl e \<Rightarrow> Inl e | Inr its \<Rightarrow> Inr (map Literal kw @ its))"
proof (induction kw)
  case Nil
  show ?case by (simp add: re_escape_def split: sum.split)
next
  case (Cons c kw)
  have step: "sre_parse (re_escape (c # kw) @ rest) = cons_item (Literal c) (sre_parse (re_escape kw @ rest))"
  proof (cases "c \<in> set special_chars")
    case True
    then show ?thesis
      using special_not_alnum [OF True] by (simp add: re_escape_def)
  next
    case False
    then have "c \<noteq> 92" "c \<notin> set regex_operators"
      using backslash_special operators_special by auto
    then show ?thesis
      using False by (simp add: re_escape_def sre_parse_plain)
  qed
  show ?case
    unfolding step Cons.IH by (simp add: cons_item_def split: sum.split)
qed

lemma sre_parse_keyword_pattern:
  "sre_parse (keyword_pattern kw) = Inr (At_Boundary # map Literal kw @ [At_Boundary])"
proof -
  have "sre_parse (re_escape kw @ [92, 98]) = Inr (map Literal kw @ [At_Boundary])"
    unfolding sre_parse_re_escape by (simp add: cons_item_def)
  then show ?thesis
    by (simp add: keyword_pattern_def cons_item_def)
qed

section \<open>Searching for a keyword pattern finds the phrase between word boundaries\<close>

lemma match_here_literals:
  "match_here U (map Literal kw @ its) prev rest =
     (if length kw \<le> length rest \<and> take (length kw) rest = kw
      then map_option (\<lambda>n. length kw + n)
             (match_here U its (if kw = [] then prev else Some (last kw)) (drop (length kw) rest))
      else None)"
proof (induction kw arbitrary: prev rest)
  case Nil
  show ?case by (cases "match_here U its prev rest") simp_all
next
  case (Cons c kw)
  show ?case
  proof (cases rest)
    case Nil
    then show ?thesis by simp
  next
    case (Cons x xs)
    show ?thesis
      unfolding Cons
      by (auto simp add: Cons.IH option.map_comp comp_def)
  qed
qed

lemma scan_found:
  "scan U its prev pos rest \<noteq> None \<longleftrightarrow>
     (\<exists>a b. rest = a @ b \<and> match_here U its (if a = [] then prev else Some (last a)) b \<noteq> None)"
proof (induction rest arbitrary: prev pos)
  case Nil
  show ?case by (simp split: option.split)
next
  case (Cons x xs)
  have "scan U its prev pos (x # xs) \<noteq> None \<longleftrightarrow>
          match_here U its prev (x # xs) \<noteq> None \<or> scan U its (Some x) (Suc pos) xs \<noteq> None"
    by (simp split: option.split)
  also have "\<dots> \<longleftrightarrow> match_here U its prev (x # xs) \<noteq> None \<or>
      (\<exists>a b. xs = a @ b \<and> match_here U its (if a = [] then Some x else Some (last a)) b \<noteq> None)"
    unfolding Cons.IH ..
  also have "\<dots> \<longleftrightarrow> (\<exists>a b. x # xs = a @ b \<and>
       match_here U its (if a = [] then prev else Some (last a)) b \<noteq> None)"
    (is "?L \<longleftrightarrow> ?R")
  proof
    assume ?L
    then show ?R
    proof
      assume "match_here U its prev (x # xs) \<noteq> None"
      then have "x # xs = [] @ (x # xs) \<and>
          match_here U its (if [] = ([]::pystr) then prev else Some (last [])) (x # xs) \<noteq> None"
        by simp
      then show ?R by blast
    next
      assume "\<exists>a b. xs = a @ b \<and> match_here U its (if a = [] then Some x else Some (last a)) b \<noteq> None"
      then obtain a b where ab: "xs = a @ b"
        "match_here U its (if a = [] then Some x else Some (last a)) b \<noteq> None" by blast
      then have "x # xs = (x # a) @ b \<and>
          match_here U its (if x # a = [] then prev else Some (last (x # a))) b \<noteq> None"
        by (cases "a = []") simp_all
      then show ?R by blast
    qed
  next
    assume ?R
    then obtain a b where ab: "x # xs = a @ b"
      "match_here U its (if a = [] then prev else Some (last a)) b \<noteq> None" by blast
    show ?L
    proof (cases a)
      case Nil
      with ab show ?thesis by simp
    next
      case (Cons y a')
      with ab have "xs = a' @ b \<and> match_here U its (if a' = [] then Some x else Some (last a')) b \<noteq> None"
        by (cases "a' = []") simp_all
      then show ?thesis by blast
    qed
  qed
  finally show ?case .
qed


lemma boundary_split:
  "at_boundary U (if a = [] then None else Some (last a)) b = word_boundary U (a @ b) (length a)"
proof -
  have "word_opt U (if a = [] then None else Some (last a)) = word_before U (a @ b) (length a)"
    by (cases "a = []") (simp_all add: word_opt_def word_before_def nth_append last_conv_nth)
  moreover have "word_opt U (next_char b) = word_after U (a @ b) (length a)"
    by (cases b) (simp_all add: word_opt_def next_char_def word_after_def)
  ultimately show ?thesis
    by (simp add: at_boundary_def word_boundary_def)
qed

lemma last_append_opt:
  "(if a @ kw = [] then None else Some (last (a @ kw))) =
     (if kw = [] then (if a = [] then None else Some (last a)) else Some (last kw))"
  by simp

lemma match_here_keyword:
  "match_here U (At_Boundary # map Literal kw @ [At_Boundary]) p b \<noteq> None \<longleftrightarrow>
     at_boundary U p b \<and> length kw \<le> length b \<and> take (length kw) b = kw \<and>
     at_boundary U (if kw = [] then p else Some (last kw)) (drop (length kw) b)"
proof -
  have "length kw \<le> length b" if "take (length kw) b = kw"
  proof -
    have "length (take (length kw) b) = length kw"
      using that by simp
    then show ?thesis by simp
  qed
  then show ?thesis
    by (auto simp add: match_here_literals)
qed

lemma phrase_occurs_iff:
  "phrase_occurs U kw s \<longleftrightarrow>
     (\<exists>i\<le>length s. occurs_at kw s i \<and> word_boundary U s i \<and> word_boundary U s (i + length kw))"
proof -
  have "set [0..<Suc (length s)] = {i. i \<le> length s}"
    unfolding set_upt by auto
  then show ?thesis
    unfolding phrase_occurs_def list_ex_iff by blast
qed

lemma scan_keyword:
  "scan U (At_Boundary # map Literal kw @ [At_Boundary]) None 0 s \<noteq> None \<longleftrightarrow> phrase_occurs U kw s"
  (is "?L \<longleftrightarrow> ?R")
proof
  assume ?L
  then obtain a b where s: "s = a @ b"
    and m: "match_here U (At_Boundary # map Literal kw @ [At_Boundary])
              (if a = [] then None else Some (last a)) b \<noteq> None"
    unfolding scan_found by blast
  from m have b1: "at_boundary U (if a = [] then None else Some (last a)) b"
    and len: "length kw \<le> length b" and tk: "take (length kw) b = kw"
    and b2: "at_boundary U (if kw = [] then (if a = [] then None else Some (last a)) else Some (last kw))
               (drop (length kw) b)"
    unfolding match_here_keyword by simp_all
  have occ: "occurs_at kw s (length a)"
    using len tk by (simp add: occurs_at_def s)
  have wb1: "word_boundary U s (length a)"
    using b1 unfolding boundary_split s .
  have b: "b = kw @ drop (length kw) b"
    using tk by (metis append_take_drop_id)
  have "(if kw = [] then (if a = [] then None else Some (last a)) else Some (last kw))
          = (if a @ kw = [] then None else Some (last (a @ kw)))"
    by simp
  with b2 have "word_boundary U ((a @ kw) @ drop (length kw) b) (length (a @ kw))"
    unfolding boundary_split [symmetric] by simp
  then have wb2: "word_boundary U s (length a + length kw)"
    using b s by simp
  have "length a \<le> length s" by (simp add: s)
  with occ wb1 wb2 show ?R
    unfolding phrase_occurs_iff by blast
next
  assume ?R
  then obtain i where i: "i \<le> length s" and occ: "occurs_at kw s i"
    and wb1: "word_boundary U s i" and wb2: "word_boundary U s (i + length kw)"
    unfolding phrase_occurs_iff by auto
  define a where "a = take i s"
  define b where "b = drop i s"
  have s: "s = a @ b" and la: "length a = i"
    using i by (simp_all add: a_def b_def)
  from occ have tk: "take (length kw) b = kw"
    by (simp add: occurs_at_def b_def)
  from occ have "i + length kw \<le> length s"
    by (simp add: occurs_at_def)
  then have len: "length kw \<le> length b"
    by (simp add: b_def)
  have b: "b = kw @ drop (length kw) b"
    using tk by (metis append_take_drop_id)
  have b1: "at_boundary U (if a = [] then None else Some (last a)) b"
    unfolding boundary_split using wb1 s la by simp
  have "word_boundary U ((a @ kw) @ drop (length kw) b) (length (a @ kw))"
    using wb2 b s la by simp
  then have "at_boundary U (if a @ kw = [] then None else Some (last (a @ kw))) (drop (length kw) b)"
    unfolding boundary_split .
  then have b2: "at_boundary U (if kw = [] then (if a = [] then None else Some (last a)) else Some (last kw))
               (drop (length kw) b)"
    unfolding last_append_opt .
  have "match_here U (At_Boundary # map Literal kw @ [At_Boundary])
              (if a = [] then None else Some (last a)) b \<noteq> None"
    unfolding match_here_keyword using b1 len tk b2 by simp
  with s show ?L
    unfolding scan_found by blast
qed

section \<open>The report of the clause checker\<close>

lemma re_search_keyword:
  "re_search U (keyword_pattern kw) s =
     Inr (scan U (At_Boundary # map Literal kw @ [At_Boundary]) None 0 s)"
  by (simp add: re_search_def sre_parse_keyword_pattern)

lemma any_keyword_present: "any_keyword U s kws = Inr (present U kws s)"
proof (induction kws)
  case Nil
  show ?case by (simp add: present_def)
next
  case (Cons kw kws)
  show ?case
  proof (cases "scan U (At_Boundary # map Literal kw @ [At_Boundary]) None 0 s")
    case None
    then have "\<not> phrase_occurs U kw s"
      using scan_keyword [of U kw s] by simp
    then show ?thesis
      using None Cons.IH by (simp add: re_search_keyword present_def)
  next
    case (Some m)
    then have "phrase_occurs U kw s"
      using scan_keyword [of U kw s] by simp
    then show ?thesis
      using Some by (simp add: re_search_keyword present_def)
  qed
qed

lemma check_loop_fold:
  "check_loop U s results T = Inr (fold (record_clause U s) T results)"
  by (induction T arbitrary: results) (auto simp add: any_keyword_present record_clause_def)

lemma fold_record_keys:
  "fst ` set (fold (record_clause U s) T results) = fst ` set results \<union> fst ` set T"
proof (induction T arbitrary: results)
  case Nil
  show ?case by simp
next
  case (Cons p T)
  obtain k kws where p: "p = (k, kws)" by (cases p)
  have "fst ` set (fold (record_clause U s) (p # T) results) =
          fst ` set (AList.update k (present U kws s) results) \<union> fst ` set T"
    using Cons.IH [of "AList.update k (present U kws s) results"]
    by (simp add: p record_clause_def)
  also have "\<dots> = ({k} \<union> fst ` set results) \<union> fst ` set T"
    by (simp only: dom_update)
  also have "\<dots> = fst ` set results \<union> fst ` set (p # T)"
    by (auto simp add: p)
  finally show ?case .
qed

lemma fold_record_distinct:
  "distinct (map fst results) \<Longrightarrow> distinct (map fst (fold (record_clause U s) T results))"
  by (induction T arbitrary: results) (auto simp add: record_clause_def distinct_update)

lemma fold_record_fresh:
  "distinct (map fst T) \<Longrightarrow> fst ` set results \<inter> fst ` set T = {} \<Longrightarrow>
     fold (record_clause U s) T results =
       results @ map (\<lambda>(clause, keywords). (clause, present U keywords s)) T"
proof (induction T arbitrary: results)
  case Nil
  show ?case by simp
next
  case (Cons p T)
  obtain k kws where p: "p = (k, kws)" by (cases p)
  have fresh: "k \<notin> fst ` set results"
    using Cons.prems(2) p by auto
  have upd: "AList.update k v results = results @ [(k, v)]" for v
    using fresh by (induction results) auto
  have "fst ` set (results @ [(k, present U kws s)]) \<inter> fst ` set T = {}"
    using Cons.prems p by auto
  moreover have "distinct (map fst T)"
    using Cons.prems(1) by simp
  ultimately show ?case
    using Cons.IH [of "results @ [(k, present U kws s)]"]
    by (simp add: p record_clause_def upd)
qed

lemma check_clauses_report:
  "distinct (map fst T) \<Longrightarrow> check_clauses U text T = Inr (spec_report U text T)"
  by (simp add: check_clauses_def check_loop_fold fold_record_fresh spec_report_def)

section \<open>Phrases that begin and end with a word character\<close>

lemma occurs_at_nth:
  assumes "occurs_at kw s i" and "j < length kw"
  shows "s ! (i + j) = kw ! j"
proof -
  from assms(1) have len: "i + length kw \<le> length s" and tk: "take (length kw) (drop i s) = kw"
    by (simp_all add: occurs_at_def)
  have "kw ! j = take (length kw) (drop i s) ! j"
    by (simp only: tk)
  also have "\<dots> = drop i s ! j"
    using assms(2) by simp
  also have "\<dots> = s ! (i + j)"
    using len by simp
  finally show ?thesis by simp
qed

lemma word_edged_boundaries:
  assumes "word_edged U kw" and "occurs_at kw s i"
  shows "(word_boundary U s i \<and> word_boundary U s (i + length kw)) =
         (\<not> word_before U s i \<and> \<not> word_after U s (i + length kw))"
proof -
  from assms(1) have ne: "kw \<noteq> []" and h: "is_word U (hd kw)" and l: "is_word U (last kw)"
    by (simp_all add: word_edged_def)
  from assms(2) have len: "i + length kw \<le> length s"
    by (simp add: occurs_at_def)
  have pos: "0 < length kw" using ne by simp
  have "s ! (i + 0) = kw ! 0"
    using assms(2) pos by (rule occurs_at_nth)
  then have first: "s ! i = hd kw"
    using ne by (simp add: hd_conv_nth)
  have "s ! (i + (length kw - 1)) = kw ! (length kw - 1)"
    using assms(2) pos by (intro occurs_at_nth) simp_all
  then have final: "s ! (i + length kw - 1) = last kw"
    using ne pos by (simp add: last_conv_nth)
  have "i < length s"
    using len pos by arith
  then have after: "word_after U s i"
    using h first by (simp add: word_after_def)
  have "0 < i + length kw"
    using pos by arith
  then have before: "word_before U s (i + length kw)"
    using len l final by (simp add: word_before_def)
  show ?thesis
    using after before by (simp add: word_boundary_def)
qed

lemma bounded_by_non_word_iff:
  "bounded_by_non_word U kw s \<longleftrightarrow>
     (\<exists>i\<le>length s. occurs_at kw s i \<and> \<not> word_before U s i \<and> \<not> word_after U s (i + length kw))"
proof -
  have "set [0..<Suc (length s)] = {i. i \<le> length s}"
    unfolding set_upt by auto
  then show ?thesis
    unfolding bounded_by_non_word_def list_ex_iff by blast
qed

lemma word_edged_phrase:
  assumes "word_edged U kw"
  shows "phrase_occurs U kw s = bounded_by_non_word U kw s"
  unfolding phrase_occurs_iff bounded_by_non_word_iff
  using word_edged_boundaries [OF assms] by blast

lemma word_edged_present:
  "list_all (word_edged U) kws \<Longrightarrow> present U kws s = present_bounded U kws s"
  by (induction kws) (simp_all add: present_def present_bounded_def word_edged_phrase)

lemma report_lookup:
  assumes "distinct (map fst T)" and "(clause, keywords) \<in> set T"
  shows "map_of (spec_report U text T) clause = Some (present U keywords (py_lower U text))"
proof -
  have "map fst (spec_report U text T) = map fst T"
    by (simp add: spec_report_def case_prod_unfold comp_def)
  then have "distinct (map fst (spec_report U text T))"
    using assms(1) by simp
  moreover have "(clause, present U keywords (py_lower U text)) \<in> set (spec_report U text T)"
    using assms(2) by (force simp add: spec_report_def)
  ultimately show ?thesis
    by (rule map_of_is_SomeI)
qed

section \<open>Running the checker on given texts\<close>

lemmas checker_defs =
  check_clauses_def py_lower_def lit_def ascii_lower_def ascii_upper_def re_search_def
  keyword_pattern_def re_escape_def special_chars_def regex_operators_def cons_item_def
  ascii_alnum_def at_boundary_def word_opt_def next_char_def is_word_def

lemma metachar_value:
  "check_clauses U (lit ''see axbccd now'') [(lit ''Fees'', [lit ''a.b(c)*d''])] =
     Inr [(lit ''Fees'', False)]"
  "check_clauses U (lit ''see A.B(C)*D now'') [(lit ''Fees'', [lit ''a.b(c)*d''])] =
     Inr [(lit ''Fees'', True)]"
  by (simp_all add: checker_defs)

lemma capitals_value:
  "check_clauses U (lit ''NDA'') legal_clauses =
   Inr [(lit ''Indemnification'', False), (lit ''Termination'', False),
        (lit ''Confidentiality'', True), (lit ''Limitation of Liability'', False)]"
  by (simp add: checker_defs legal_clauses_def)

lemma capitals_not_in_text:
  "\<not> present U [lit ''confidentiality'', lit ''non-disclosure'', lit ''nda''] (lit ''NDA'')"
  by (simp add: present_def phrase_occurs_def occurs_at_def lit_def)

lemma legal_scenario_value:
  "check_clauses U
     (lit ''This agreement includes an NDA and may be terminated by either party.'') legal_clauses =
   Inr [(lit ''Indemnification'', False), (lit ''Termination'', False),
        (lit ''Confidentiality'', True), (lit ''Limitation of Liability'', False)]"
  by (simp add: checker_defs legal_clauses_def)

lemma fused_value:
  "check_clauses U (lit ''nondisclosure'') legal_clauses =
   Inr [(lit ''Indemnification'', False), (lit ''Termination'', False),
        (lit ''Confidentiality'', False), (lit ''Limitation of Liability'', False)]"
  by (simp add: checker_defs legal_clauses_def)

lemma fused_search:
  "re_search U (keyword_pattern (lit ''non-disclosure'')) (py_lower U (lit ''nondisclosure'')) = Inr None"
  by (simp add: checker_defs)

lemma disclosure_value:
  "check_clauses U (lit ''This is a Non-Disclosure Agreement'') legal_clauses =
   Inr [(lit ''Indemnification'', False), (lit ''Termination'', False),
        (lit ''Confidentiality'', True), (lit ''Limitation of Liability'', False)]"
  by (simp add: checker_defs legal_clauses_def)

lemma disclosure_search:
  "re_search U (keyword_pattern (lit ''non-disclosure''))
     (py_lower U (lit ''This is a Non-Disclosure Agreement'')) = Inr (Some (10, 24))"
  by (simp add: checker_defs)

lemma determination_value:
  "check_clauses U (lit ''determinationally'') legal_clauses =
   Inr [(lit ''Indemnification'', False), (lit ''Termination'', False),
        (lit ''Confidentiality'', False), (lit ''Limitation of Liability'', False)]"
  by (simp add: checker_defs legal_clauses_def)

lemma fixed_phrases_word_edged:
  "list_all (word_edged U) (concat (map snd commercial_clauses @ map snd legal_clauses))"
  by (simp add: commercial_clauses_def legal_clauses_def word_edged_def lit_def is_word_def ascii_alnum_def)

lemma plus_value:
  "check_clauses U (lit ''c++x'') [(lit ''Language'', [lit ''c++''])] = Inr [(lit ''Language'', True)]"
  by (simp add: checker_defs)

lemma plus_not_bounded:
  "\<not> present_bounded U [lit ''c++''] (py_lower U (lit ''c++x''))"
  by (simp add: present_bounded_def bounded_by_non_word_def occurs_at_def word_before_def
      word_after_def py_lower_def lit_def ascii_lower_def ascii_upper_def is_word_def ascii_alnum_def)

lemma ip_rights_value:
  "check_clauses U (lit ''IP rights'') commercial_clauses =
   Inr [(lit ''Payment Terms'', False), (lit ''IP'', False), (lit ''Delivery Terms'', False),
        (lit ''Warranties and Representations'', False)]"
  "check_clauses U (lit ''ip rights'') commercial_clauses =
   Inr [(lit ''Payment Terms'', False), (lit ''IP'', False), (lit ''Delivery Terms'', False),
        (lit ''Warranties and Representations'', False)]"
  by (simp_all add: checker_defs commercial_clauses_def)

section \<open>A keyword with a capital letter\<close>

lemma lower_from_no_capital:
  assumes "\<And>s i c. c \<in> set (uni_lower U s i) \<Longrightarrow> \<not> ascii_upper c"
  shows "c \<in> set (lower_from U s i cs) \<Longrightarrow> \<not> ascii_upper c"
proof (induction cs arbitrary: i)
  case Nil
  then show ?case by simp
next
  case (Cons d cs)
  have "\<not> ascii_upper (ascii_lower d)"
    by (simp add: ascii_lower_def ascii_upper_def)
  with Cons assms show ?case
    by (auto split: if_splits)
qed

lemma capital_keyword_absent:
  assumes "\<And>s i c. c \<in> set (uni_lower U s i) \<Longrightarrow> \<not> ascii_upper c"
    and "c \<in> set keyword" and "ascii_upper c"
  shows "\<not> phrase_occurs U keyword (py_lower U text)"
proof
  assume "phrase_occurs U keyword (py_lower U text)"
  then obtain i where "occurs_at keyword (py_lower U text) i"
    unfolding phrase_occurs_iff by blast
  then have "keyword = take (length keyword) (drop i (py_lower U text))"
    by (simp add: occurs_at_def)
  then have "set keyword \<subseteq> set (py_lower U text)"
    by (metis set_take_subset set_drop_subset subset_trans)
  with assms(2) have "c \<in> set (lower_from U text 0 text)"
    by (auto simp add: py_lower_def)
  then have "\<not> ascii_upper c"
    using assms(1) by (rule lower_from_no_capital [rotated])
  with assms(3) show False by simp
qed

section \<open>The claims about the clause checker\<close>

text \<open>
  C2. For all taxonomies \<open>T\<close> and all texts \<open>S\<close>, \<open>check_clauses\<close> returns a report (it
  never raises) whose set of keys is exactly the set of keys of \<open>T\<close>, and no key occurs
  twice in it: one boolean for each key, none missing and none extra.
\<close>

theorem check_clauses_keys:
  "\<exists>r. check_clauses U S T = Inr r \<and> fst ` set r = fst ` set T \<and> distinct (map fst r)"
proof -
  have "check_clauses U S T = Inr (fold (record_clause U (py_lower U S)) T [])"
    by (simp add: check_clauses_def check_loop_fold)
  moreover have "fst ` set (fold (record_clause U (py_lower U S)) T []) = fst ` set T"
    by (simp add: fold_record_keys)
  moreover have "distinct (map fst (fold (record_clause U (py_lower U S)) T []))"
    by (rule fold_record_distinct) simp
  ultimately show ?thesis by blast
qed

text \<open>
  C9, as stated, fails: a clause is marked present if and only if the exact characters of
  one of its phrases appear in the text between word boundaries. The text that is searched
  is the lowercased one: for the text \<open>NDA\<close> the Confidentiality clause is marked present,
  although none of its phrases, \<open>nda\<close> included, appears in the text itself.
\<close>

theorem literal_in_text_counterexample:
  "check_clauses plain_tables (lit ''NDA'') legal_clauses =
     Inr [(lit ''Indemnification'', False), (lit ''Termination'', False),
          (lit ''Confidentiality'', True), (lit ''Limitation of Liability'', False)] \<and>
   \<not> present plain_tables [lit ''confidentiality'', lit ''non-disclosure'', lit ''nda''] (lit ''NDA'')"
  using capitals_value capitals_not_in_text by simp

text \<open>
  C9, amended. Synonym phrases are matched as literal strings against the lowercased text.
  Whatever characters a keyword holds, the pattern built from it parses to a word boundary,
  the characters of the keyword as literals, and a word boundary: no character of the
  keyword is read as an operator. Searching for it succeeds exactly when the keyword occurs
  in the searched string between two word boundaries. Hence, for a taxonomy with distinct
  keys, a clause is marked present if and only if one of its phrases occurs, character for
  character, in the lowercased text between word boundaries.
\<close>

theorem keywords_matched_literally:
  "sre_parse (keyword_pattern keyword) = Inr (At_Boundary # map Literal keyword @ [At_Boundary]) \<and>
   (\<exists>m. re_search U (keyword_pattern keyword) s = Inr m \<and> (m \<noteq> None) = phrase_occurs U keyword s) \<and>
   (distinct (map fst T) \<longrightarrow> check_clauses U text T = Inr (spec_report U text T))"
proof -
  have parsed: "sre_parse (keyword_pattern keyword) = Inr (At_Boundary # map Literal keyword @ [At_Boundary])"
    by (rule sre_parse_keyword_pattern)
  have "re_search U (keyword_pattern keyword) s =
          Inr (scan U (At_Boundary # map Literal keyword @ [At_Boundary]) None 0 s)"
    by (rule re_search_keyword)
  moreover have "(scan U (At_Boundary # map Literal keyword @ [At_Boundary]) None 0 s \<noteq> None) =
          phrase_occurs U keyword s"
    by (rule scan_keyword)
  ultimately have searched:
    "\<exists>m. re_search U (keyword_pattern keyword) s = Inr m \<and> (m \<noteq> None) = phrase_occurs U keyword s"
    by blast
  have "distinct (map fst T) \<longrightarrow> check_clauses U text T = Inr (spec_report U text T)"
    using check_clauses_report by blast
  with parsed searched show ?thesis by blast
qed

text \<open>
  The theorem at the phrase \<open>a.b(c)*d\<close>, full of operator characters. The text
  \<open>see axbccd now\<close>, which the same characters read as operators would match, leaves the
  clause absent; the text \<open>see A.B(C)*D now\<close>, which they would not match, marks it
  present.
\<close>

theorem keywords_matched_literally_witness:
  "distinct (map fst [(lit ''Fees'', [lit ''a.b(c)*d''])]) \<and>
   check_clauses plain_tables (lit ''see axbccd now'') [(lit ''Fees'', [lit ''a.b(c)*d''])] =
     Inr (spec_report plain_tables (lit ''see axbccd now'') [(lit ''Fees'', [lit ''a.b(c)*d''])]) \<and>
   spec_report plain_tables (lit ''see axbccd now'') [(lit ''Fees'', [lit ''a.b(c)*d''])] =
     [(lit ''Fees'', False)] \<and>
   check_clauses plain_tables (lit ''see A.B(C)*D now'') [(lit ''Fees'', [lit ''a.b(c)*d''])] =
     Inr (spec_report plain_tables (lit ''see A.B(C)*D now'') [(lit ''Fees'', [lit ''a.b(c)*d''])]) \<and>
   spec_report plain_tables (lit ''see A.B(C)*D now'') [(lit ''Fees'', [lit ''a.b(c)*d''])] =
     [(lit ''Fees'', True)]"
  using keywords_matched_literally [of "lit ''a.b(c)*d''" plain_tables "[]"
      "[(lit ''Fees'', [lit ''a.b(c)*d''])]" "lit ''see axbccd now''"]
    keywords_matched_literally [of "lit ''a.b(c)*d''" plain_tables "[]"
      "[(lit ''Fees'', [lit ''a.b(c)*d''])]" "lit ''see A.B(C)*D now''"]
    metachar_value [of plain_tables]
  by simp

text \<open>
  C1, as the specification states it, fails: a clause is marked present only when one of its
  phrases occurs bounded by non-word characters. The phrase \<open>c++\<close> ends with a non-word
  character, so the word boundary after it asks for a word character there: in \<open>c++x\<close>
  the clause is marked present although the phrase is followed by the letter \<open>x\<close>.
\<close>

theorem non_word_bound_counterexample:
  "check_clauses plain_tables (lit ''c++x'') [(lit ''Language'', [lit ''c++''])] =
     Inr [(lit ''Language'', True)] \<and>
   \<not> present_bounded plain_tables [lit ''c++''] (py_lower plain_tables (lit ''c++x''))"
  using plus_value plus_not_bounded by simp

text \<open>
  C1, amended. For every text and every taxonomy (a dictionary: its keys are distinct),
  \<open>check_clauses\<close> marks a clause present exactly when one of its phrases occurs in the
  lowercased text with a word boundary just before and just after it. For phrases that
  begin and end with a word character, as every phrase of the two fixed taxonomies does,
  this is the same as occurring bounded by non-word characters or the ends of the text.
  In particular the text \<open>nondisclosure\<close> does not match the phrase \<open>non-disclosure\<close> and
  leaves Confidentiality absent, the text \<open>This is a Non-Disclosure Agreement\<close> matches it
  (at characters 10 to 24) and marks Confidentiality present, and the text
  \<open>determinationally\<close> leaves Termination absent.
\<close>

theorem whole_word_matching:
  "(distinct (map fst T) \<and> (clause, keywords) \<in> set T \<longrightarrow>
      (\<exists>r. check_clauses U text T = Inr r \<and>
           map_of r clause = Some (present U keywords (py_lower U text)))) \<and>
   (list_all (word_edged U) keywords \<longrightarrow> present U keywords s = present_bounded U keywords s) \<and>
   list_all (word_edged U) (concat (map snd commercial_clauses @ map snd legal_clauses)) \<and>
   check_clauses U (lit ''nondisclosure'') legal_clauses =
     Inr [(lit ''Indemnification'', False), (lit ''Termination'', False),
          (lit ''Confidentiality'', False), (lit ''Limitation of Liability'', False)] \<and>
   re_search U (keyword_pattern (lit ''non-disclosure'')) (py_lower U (lit ''nondisclosure'')) = Inr None \<and>
   check_clauses U (lit ''This is a Non-Disclosure Agreement'') legal_clauses =
     Inr [(lit ''Indemnification'', False), (lit ''Termination'', False),
          (lit ''Confidentiality'', True), (lit ''Limitation of Liability'', False)] \<and>
   re_search U (keyword_pattern (lit ''non-disclosure''))
     (py_lower U (lit ''This is a Non-Disclosure Agreement'')) = Inr (Some (10, 24)) \<and>
   check_clauses U (lit ''determinationally'') legal_clauses =
     Inr [(lit ''Indemnification'', False), (lit ''Termination'', False),
          (lit ''Confidentiality'', False), (lit ''Limitation of Liability'', False)]"
proof -
  have "\<exists>r. check_clauses U text T = Inr r \<and>
           map_of r clause = Some (present U keywords (py_lower U text))"
    if "distinct (map fst T)" and "(clause, keywords) \<in> set T"
    using that by (simp add: check_clauses_report report_lookup)
  moreover have "list_all (word_edged U) keywords \<longrightarrow>
      present U keywords s = present_bounded U keywords s"
    using word_edged_present by blast
  ultimately show ?thesis
    using fixed_phrases_word_edged fused_value fused_search disclosure_value disclosure_search
      determination_value
    by blast
qed

text \<open>
  The theorem at the legal taxonomy, the Confidentiality clause and the text
  \<open>This is a Non-Disclosure Agreement\<close>.
\<close>

theorem whole_word_matching_witness:
  "distinct (map fst legal_clauses) \<and>
   (lit ''Confidentiality'', [lit ''confidentiality'', lit ''non-disclosure'', lit ''nda'']) \<in> set legal_clauses \<and>
   list_all (word_edged plain_tables) [lit ''confidentiality'', lit ''non-disclosure'', lit ''nda''] \<and>
   present_bounded plain_tables [lit ''confidentiality'', lit ''non-disclosure'', lit ''nda'']
     (py_lower plain_tables (lit ''This is a Non-Disclosure Agreement''))"
proof -
  let ?kws = "[lit ''confidentiality'', lit ''non-disclosure'', lit ''nda'']"
  let ?text = "lit ''This is a Non-Disclosure Agreement''"
  have d: "distinct (map fst legal_clauses)"
    by (simp add: legal_clauses_def lit_def)
  have m: "(lit ''Confidentiality'', ?kws) \<in> set legal_clauses"
    by (simp add: legal_clauses_def)
  have e: "list_all (word_edged plain_tables) ?kws"
    using fixed_phrases_word_edged [of plain_tables] by (simp add: legal_clauses_def)
  note w = whole_word_matching [of legal_clauses "lit ''Confidentiality''" ?kws plain_tables ?text
      "py_lower plain_tables ?text"]
  from w d m obtain r where r: "check_clauses plain_tables ?text legal_clauses = Inr r"
    "map_of r (lit ''Confidentiality'') = Some (present plain_tables ?kws (py_lower plain_tables ?text))"
    by blast
  from r(1) have "r = [(lit ''Indemnification'', False), (lit ''Termination'', False),
          (lit ''Confidentiality'', True), (lit ''Limitation of Liability'', False)]"
    unfolding disclosure_value by simp
  then have "map_of r (lit ''Confidentiality'') = Some True"
    by (simp add: lit_def)
  with r(2) have "present plain_tables ?kws (py_lower plain_tables ?text)"
    by simp
  moreover from w e have "present plain_tables ?kws (py_lower plain_tables ?text) =
      present_bounded plain_tables ?kws (py_lower plain_tables ?text)"
    by blast
  ultimately show ?thesis
    using d m e by blast
qed

text \<open>
  C3. The specification asks for matching that ignores case on both sides, so that a text
  holding \<open>ip rights\<close> or \<open>IP rights\<close> matches the synonym \<open>IP rights\<close> of the IP clause.
  \<open>check_clauses\<close> lowercases the text and leaves the keyword as it is: against either
  text, the IP clause is reported absent (and by \<open>capital_keyword_absent\<close> a keyword with
  a capital letter matches no text at all).
\<close>

theorem ip_rights_never_found:
  "check_clauses U (lit ''IP rights'') commercial_clauses =
     Inr [(lit ''Payment Terms'', False), (lit ''IP'', False), (lit ''Delivery Terms'', False),
          (lit ''Warranties and Representations'', False)] \<and>
   check_clauses U (lit ''ip rights'') commercial_clauses =
     Inr [(lit ''Payment Terms'', False), (lit ''IP'', False), (lit ''Delivery Terms'', False),
          (lit ''Warranties and Representations'', False)]"
  using ip_rights_value by simp

text \<open>
  C4, as the specification states it, fails: for the text
  \<open>This agreement includes an NDA and may be terminated by either party.\<close> the report of
  the legal taxonomy is not the one with Termination present.
\<close>

theorem legal_scenario_counterexample:
  "check_clauses plain_tables
     (lit ''This agreement includes an NDA and may be terminated by either party.'') legal_clauses \<noteq>
   Inr [(lit ''Indemnification'', False), (lit ''Termination'', True),
        (lit ''Confidentiality'', True), (lit ''Limitation of Liability'', False)]"
  unfolding legal_scenario_value by simp

text \<open>
  C4, amended. For that text the report of the legal taxonomy is Indemnification absent,
  Termination absent, Confidentiality present, Limitation of Liability absent: the text
  holds \<open>terminated\<close>, which is none of the phrases of the Termination clause.
\<close>

theorem legal_scenario_report:
  "check_clauses U
     (lit ''This agreement includes an NDA and may be terminated by either party.'') legal_clauses =
   Inr [(lit ''Indemnification'', False), (lit ''Termination'', False),
        (lit ''Confidentiality'', True), (lit ''Limitation of Liability'', False)]"
  by (rule legal_scenario_value)

section \<open>Decoding and dispatch on the media type\<close>

lemma cons_char_error: "cons_char c r = Inl e \<Longrightarrow> r = Inl e"
  by (cases r) (simp_all add: cons_char_def)

lemma utf8_decode_error: "utf8_decode bs = Inl e \<Longrightarrow> e = UnicodeDecodeError"
proof (induction bs rule: utf8_decode.induct)
  case 1
  then show ?case by simp
next
  case (2 b0 bs)
  show ?case
  proof (cases "b0 < 128")
    case True
    with "2.prems" have "utf8_decode bs = Inl e"
      by (simp add: cons_char_error)
    with True "2.IH"(1) show ?thesis by blast
  next
    case a: False
    show ?thesis
    proof (cases "194 \<le> b0 \<and> b0 \<le> 223")
      case True
      with a "2.prems" "2.IH"(2) show ?thesis
        by (auto split: list.splits if_splits dest!: cons_char_error)
    next
      case b: False
      show ?thesis
      proof (cases "224 \<le> b0 \<and> b0 \<le> 239")
        case True
        with a b "2.prems" "2.IH"(3) show ?thesis
          by (auto split: list.splits if_splits dest!: cons_char_error)
      next
        case c: False
        show ?thesis
        proof (cases "240 \<le> b0 \<and> b0 \<le> 244")
          case True
          with a b c "2.prems" "2.IH"(4) show ?thesis
            by (auto split: list.splits if_splits dest!: cons_char_error)
        next
          case False
          with a b c "2.prems" show ?thesis by (simp split: if_splits)
        qed
      qed
    qed
  qed
qed

lemma utf8_decode_ascii: "list_all (\<lambda>b. b < 128) bs \<Longrightarrow> utf8_decode bs = Inr bs"
  by (induction bs) (simp_all add: cons_char_def)

lemma text_type_not_library:
  assumes "startswith t (lit ''text/'')"
  shows "t \<noteq> docx_type" and "t \<noteq> pdf_type"
proof -
  have "\<not> startswith docx_type (lit ''text/'')" "\<not> startswith pdf_type (lit ''text/'')"
    by (simp_all add: startswith_def docx_type_def pdf_type_def lit_def)
  with assms show "t \<noteq> docx_type" and "t \<noteq> pdf_type"
    by auto
qed

lemma extract_text_of_text:
  assumes "startswith (file_type file) (lit ''text/'')"
  shows "extract_text file =
     (case utf8_decode (getvalue file) of Inl e \<Rightarrow> Inl e | Inr decoded \<Rightarrow> Inr (Some decoded))"
  using assms text_type_not_library [OF assms]
  by (simp add: extract_text_def stringio_read_def split: sum.split)

lemma extract_text_None:
  "extract_text file = Inr None \<longleftrightarrow>
     file_type file \<noteq> docx_type \<and> file_type file \<noteq> pdf_type
       \<and> \<not> startswith (file_type file) (lit ''text/'')"
  by (auto simp add: extract_text_def some_text_def split: sum.splits)

lemma hello_bytes: "utf8_decode (lit ''Hello'' @ [10] @ lit ''World'') = Inr (lit ''Hello'' @ [10] @ lit ''World'')"
  by (rule utf8_decode_ascii) (simp add: lit_def)

section \<open>The loop over the pages of a PDF\<close>

lemma pdf_loop_texts:
  "pdf_loop acc (map Inr texts) = Inr (acc @ [t. Some t \<leftarrow> texts, t \<noteq> []])"
proof (induction texts arbitrary: acc)
  case Nil
  show ?case by simp
next
  case (Cons page texts)
  show ?case
    by (cases page) (simp_all add: Cons.IH)
qed

lemma pdf_loop_none:
  "list_all (\<lambda>t. t = None \<or> t = Some []) texts \<Longrightarrow> [t. Some t \<leftarrow> texts, t \<noteq> []] = []"
  by (induction texts) auto

lemma empty_pdf_text:
  assumes "file_type file = pdf_type" and "pdf_pages file = Inr (map Inr texts)"
    and "list_all (\<lambda>t. t = None \<or> t = Some []) texts"
  shows "extract_text file = Inr (Some [])"
proof -
  have "pdf_type \<noteq> docx_type"
    by (simp add: pdf_type_def docx_type_def lit_def)
  then show ?thesis
    using assms
    by (simp add: extract_text_def some_text_def extract_text_from_pdf_def pdf_loop_texts pdf_loop_none)
qed

section \<open>Runs of \<open>main\<close>\<close>

lemma main_refuses:
  assumes "extract_text file = Inr None \<or> extract_text file = Inr (Some [])"
  shows "main chat U (Some file) pressed (start w) =
           (Inr (), \<lparr>page = refusal_page, requests = [], world = w\<rparr>)"
  using assms
  by (auto simp add: main_def bind_prog_def display_def lift_prog_def start_def refusal_page_def)

lemma create_state:
  "create chat req s = (r, s') \<Longrightarrow> page s' = page s \<and> requests s' = requests s @ [req]"
  by (auto simp add: create_def split: prod.splits)

lemma dates_failure:
  assumes ex: "extract_text file = Inr (Some text)" and ne: "text \<noteq> []"
    and h1: "summarize chat text \<lparr>page = analysis_page text, requests = [], world = w\<rparr> = (Inr summary, s1)"
    and h2: "get_obligations chat text s1 = (Inr obligations, s2)"
    and h3: "extract_important_dates chat text s2 = (Inl e, s3)"
  shows "main chat U (Some file) True (start w) = (Inl e, s3)"
    and "page s3 = analysis_page text" and "length (requests s3) = 3"
proof -
  show "main chat U (Some file) True (start w) = (Inl e, s3)"
    using h1 [unfolded analysis_page_def] h2 h3 ex ne
    by (simp add: main_def analyze_def bind_prog_def display_def lift_prog_def start_def)
  have "page s1 = analysis_page text \<and> requests s1 = [] @ [\<lparr>model = gpt_model, messages =
       [(lit ''system'', lit ''You're an exceptional lawyer skilled at distilling long contracts into short paragraphs that are easy to understand and digest.''),
        (lit ''user'', lit ''Provide an executive summary for the following contract: '' @ text)]\<rparr>]"
    using create_state [OF h1 [unfolded summarize_def]] by simp
  then have 1: "page s1 = analysis_page text" "length (requests s1) = 1"
    by simp_all
  have 2: "page s2 = analysis_page text" "length (requests s2) = 2"
    using create_state [OF h2 [unfolded get_obligations_def]] 1 by simp_all
  show "page s3 = analysis_page text" "length (requests s3) = 3"
    using create_state [OF h3 [unfolded extract_important_dates_def]] 2 by simp_all
qed

lemma dates_down_calls:
  "fst (summarize dates_down text s) = Inr (lit ''ok'')"
  "fst (get_obligations dates_down text s) = Inr (lit ''ok'')"
  "fst (extract_important_dates dates_down text s) = Inl RemoteCallFailure"
  by (simp_all add: summarize_def get_obligations_def extract_important_dates_def create_def
      dates_down_def startswith_def lit_def)

lemma nda_file_text:
  "extract_text \<lparr>file_type = lit ''text/plain'', getvalue = lit ''An NDA'',
       docx_paragraphs = Inl LibraryError, pdf_pages = Inl LibraryError\<rparr> = Inr (Some (lit ''An NDA''))"
proof -
  have "startswith (lit ''text/plain'') (lit ''text/'')"
    by (simp add: startswith_def lit_def)
  moreover have "utf8_decode (lit ''An NDA'') = Inr (lit ''An NDA'')"
    by (rule utf8_decode_ascii) (simp add: lit_def)
  ultimately show ?thesis
    by (simp add: extract_text_of_text)
qed

section \<open>The claims about extraction\<close>

text \<open>
  C5. A file whose declared media type is plain text (any type that starts with \<open>text/\<close>)
  and whose bytes are \<open>Hello\<close>, a newline, \<open>World\<close> extracts to exactly that string. A file
  whose declared media type is none of the three recognised ones makes \<open>extract_text\<close>
  return \<open>None\<close>, the value by which it signals an unsupported format: no exception is
  raised and no text is returned, and \<open>main\<close> shows the error message and stops.
\<close>

theorem format_dispatch:
  "(startswith (file_type file) (lit ''text/'') \<and> getvalue file = lit ''Hello'' @ [10] @ lit ''World''
      \<longrightarrow> extract_text file = Inr (Some (lit ''Hello'' @ [10] @ lit ''World''))) \<and>
   (file_type file \<noteq> docx_type \<and> file_type file \<noteq> pdf_type
      \<and> \<not> startswith (file_type file) (lit ''text/'') \<longrightarrow>
        extract_text file = Inr None \<and>
        main chat U (Some file) pressed (start w) =
          (Inr (), \<lparr>page = refusal_page, requests = [], world = w\<rparr>))"
proof -
  have "extract_text file = Inr (Some (lit ''Hello'' @ [10] @ lit ''World''))"
    if "startswith (file_type file) (lit ''text/'')"
      and "getvalue file = lit ''Hello'' @ [10] @ lit ''World''"
    unfolding extract_text_of_text [OF that(1)] that(2) hello_bytes by simp
  moreover have "extract_text file = Inr None \<and>
        main chat U (Some file) pressed (start w) =
          (Inr (), \<lparr>page = refusal_page, requests = [], world = w\<rparr>)"
    if "file_type file \<noteq> docx_type \<and> file_type file \<noteq> pdf_type
      \<and> \<not> startswith (file_type file) (lit ''text/'')"
  proof -
    have "extract_text file = Inr None"
      using that extract_text_None by blast
    then show ?thesis
      using main_refuses [of "file" chat U pressed w] by simp
  qed
  ultimately show ?thesis by blast
qed

text \<open>The theorem at a file declared \<open>text/plain\<close> and at a file declared \<open>image/png\<close>.\<close>

theorem format_dispatch_witness:
  "startswith (lit ''text/plain'') (lit ''text/'') \<and>
   extract_text \<lparr>file_type = lit ''text/plain'', getvalue = lit ''Hello'' @ [10] @ lit ''World'',
       docx_paragraphs = Inl LibraryError, pdf_pages = Inl LibraryError\<rparr> =
     Inr (Some (lit ''Hello'' @ [10] @ lit ''World'')) \<and>
   lit ''image/png'' \<noteq> docx_type \<and> lit ''image/png'' \<noteq> pdf_type \<and>
   \<not> startswith (lit ''image/png'') (lit ''text/'') \<and>
   extract_text \<lparr>file_type = lit ''image/png'', getvalue = [137, 80, 78, 71],
       docx_paragraphs = Inl LibraryError, pdf_pages = Inl LibraryError\<rparr> = Inr None \<and>
   main dates_down plain_tables
     (Some \<lparr>file_type = lit ''image/png'', getvalue = [137, 80, 78, 71],
       docx_paragraphs = Inl LibraryError, pdf_pages = Inl LibraryError\<rparr>) True (start ()) =
     (Inr (), \<lparr>page = refusal_page, requests = [], world = ()\<rparr>)"
  using format_dispatch [of "\<lparr>file_type = lit ''text/plain'', getvalue = lit ''Hello'' @ [10] @ lit ''World'',
       docx_paragraphs = Inl LibraryError, pdf_pages = Inl LibraryError\<rparr>"]
    format_dispatch [of "\<lparr>file_type = lit ''image/png'', getvalue = [137, 80, 78, 71],
       docx_paragraphs = Inl LibraryError, pdf_pages = Inl LibraryError\<rparr>" dates_down plain_tables True "()"]
  by (simp add: startswith_def lit_def docx_type_def pdf_type_def)

text \<open>
  C6, as the specification states it, fails: a PDF whose pages all have empty or absent
  text makes \<open>extract_text\<close> return the empty string, a successful result, and not the
  failure value \<open>None\<close>.
\<close>

theorem empty_pdf_counterexample:
  "extract_text \<lparr>file_type = pdf_type, getvalue = lit ''%PDF-1.7'', docx_paragraphs = Inl LibraryError,
       pdf_pages = Inr [Inr (Some []), Inr None]\<rparr> = Inr (Some []) \<and>
   extract_text \<lparr>file_type = pdf_type, getvalue = lit ''%PDF-1.7'', docx_paragraphs = Inl LibraryError,
       pdf_pages = Inr [Inr (Some []), Inr None]\<rparr> \<noteq> Inr None"
  using empty_pdf_text [of "\<lparr>file_type = pdf_type, getvalue = lit ''%PDF-1.7'', docx_paragraphs = Inl LibraryError,
       pdf_pages = Inr [Inr (Some []), Inr None]\<rparr>" "[Some [], None]"]
  by simp

text \<open>
  C6, amended. When every page of a PDF has empty or absent text, \<open>extract_text\<close> returns
  the empty string. \<open>main\<close> treats the empty string as it treats \<open>None\<close>: it shows the
  error message, sends no request and displays no analysis.
\<close>

theorem empty_text_refused:
  "(file_type file = pdf_type \<and> pdf_pages file = Inr (map Inr texts)
      \<and> list_all (\<lambda>t. t = None \<or> t = Some []) texts \<longrightarrow> extract_text file = Inr (Some [])) \<and>
   (extract_text file = Inr None \<or> extract_text file = Inr (Some []) \<longrightarrow>
      main chat U (Some file) pressed (start w) =
        (Inr (), \<lparr>page = refusal_page, requests = [], world = w\<rparr>))"
  using empty_pdf_text [of "file" texts] main_refuses [of "file" chat U pressed w] by blast

text \<open>The theorem at a PDF of two pages, one with empty text and one with none.\<close>

theorem empty_text_refused_witness:
  "file_type \<lparr>file_type = pdf_type, getvalue = lit ''%PDF-1.7'', docx_paragraphs = Inl LibraryError,
       pdf_pages = Inr [Inr (Some []), Inr None]\<rparr> = pdf_type \<and>
   list_all (\<lambda>t. t = None \<or> t = Some []) [Some [], None :: pystr option] \<and>
   extract_text \<lparr>file_type = pdf_type, getvalue = lit ''%PDF-1.7'', docx_paragraphs = Inl LibraryError,
       pdf_pages = Inr [Inr (Some []), Inr None]\<rparr> = Inr (Some []) \<and>
   main dates_down plain_tables
     (Some \<lparr>file_type = pdf_type, getvalue = lit ''%PDF-1.7'', docx_paragraphs = Inl LibraryError,
       pdf_pages = Inr [Inr (Some []), Inr None]\<rparr>) True (start ()) =
     (Inr (), \<lparr>page = refusal_page, requests = [], world = ()\<rparr>)"
  using empty_text_refused [of "\<lparr>file_type = pdf_type, getvalue = lit ''%PDF-1.7'', docx_paragraphs = Inl LibraryError,
       pdf_pages = Inr [Inr (Some []), Inr None]\<rparr>" "[Some [], None]" dates_down plain_tables True "()"]
  by simp

text \<open>
  C8. For every PDF document whose pages PyPDF2 can read, PDF extraction takes the texts of
  the pages in page order, drops exactly the pages whose text is empty or absent, and joins
  the remaining texts with a single newline between consecutive ones.
\<close>

theorem pdf_pages_joined:
  "pdf_pages file = Inr (map Inr texts) \<longrightarrow>
     extract_text_from_pdf file = Inr (str_join [10] [t. Some t \<leftarrow> texts, t \<noteq> []])"
  by (simp add: extract_text_from_pdf_def pdf_loop_texts)

text \<open>The theorem at a PDF of four pages, the first without text and the third with empty text.\<close>

theorem pdf_pages_joined_witness:
  "pdf_pages \<lparr>file_type = pdf_type, getvalue = lit ''%PDF-1.7'', docx_paragraphs = Inl LibraryError,
       pdf_pages = Inr (map Inr [None, Some (lit ''Page one''), Some [], Some (lit ''Page two'')])\<rparr> =
     Inr (map Inr [None, Some (lit ''Page one''), Some [], Some (lit ''Page two'')]) \<and>
   extract_text_from_pdf \<lparr>file_type = pdf_type, getvalue = lit ''%PDF-1.7'', docx_paragraphs = Inl LibraryError,
       pdf_pages = Inr (map Inr [None, Some (lit ''Page one''), Some [], Some (lit ''Page two'')])\<rparr> =
     Inr (lit ''Page one'' @ [10] @ lit ''Page two'')"
  using pdf_pages_joined [of "\<lparr>file_type = pdf_type, getvalue = lit ''%PDF-1.7'', docx_paragraphs = Inl LibraryError,
       pdf_pages = Inr (map Inr [None, Some (lit ''Page one''), Some [], Some (lit ''Page two'')])\<rparr>"
       "[None, Some (lit ''Page one''), Some [], Some (lit ''Page two'')]"]
  by (simp add: lit_def)

text \<open>
  C10. For a file whose declared media type starts with \<open>text/\<close> and whose bytes are not
  valid UTF-8, \<open>extract_text\<close> raises \<open>UnicodeDecodeError\<close>. It returns \<open>None\<close> exactly
  when the declared media type is none of the recognised ones, hence never for a recognised
  type whose bytes fail to decode.
\<close>

theorem undecodable_text_raises:
  "(startswith (file_type file) (lit ''text/'') \<and> utf8_decode (getvalue file) = Inl e
      \<longrightarrow> extract_text file = Inl UnicodeDecodeError) \<and>
   (extract_text file = Inr None) =
     (file_type file \<noteq> docx_type \<and> file_type file \<noteq> pdf_type
        \<and> \<not> startswith (file_type file) (lit ''text/''))"
proof -
  have "extract_text file = Inl UnicodeDecodeError"
    if "startswith (file_type file) (lit ''text/'')" and "utf8_decode (getvalue file) = Inl e"
  proof -
    have "e = UnicodeDecodeError"
      using that(2) by (rule utf8_decode_error)
    then show ?thesis
      unfolding extract_text_of_text [OF that(1)] that(2) by simp
  qed
  then show ?thesis
    using extract_text_None [of "file"] by blast
qed

text \<open>The theorem at a file declared \<open>text/plain\<close> whose last byte is \<open>0xFF\<close>.\<close>

theorem undecodable_text_raises_witness:
  "startswith (lit ''text/plain'') (lit ''text/'') \<and>
   utf8_decode [72, 105, 255] = Inl UnicodeDecodeError \<and>
   extract_text \<lparr>file_type = lit ''text/plain'', getvalue = [72, 105, 255],
       docx_paragraphs = Inl LibraryError, pdf_pages = Inl LibraryError\<rparr> = Inl UnicodeDecodeError"
  using undecodable_text_raises [of "\<lparr>file_type = lit ''text/plain'', getvalue = [72, 105, 255],
       docx_paragraphs = Inl LibraryError, pdf_pages = Inl LibraryError\<rparr>" UnicodeDecodeError]
  by (simp add: startswith_def lit_def cons_char_def)

section \<open>The claim about the narrative calls\<close>

text \<open>
  C7, as the specification states it, fails: with a service that fails on the dates request
  only, \<open>main\<close> ends with that exception; the page shows the preview and none of the
  answers the service gave, and three requests have been sent, not five.
\<close>

theorem independent_failure_counterexample:
  "fst (main dates_down plain_tables
          (Some \<lparr>file_type = lit ''text/plain'', getvalue = lit ''An NDA'',
             docx_paragraphs = Inl LibraryError, pdf_pages = Inl LibraryError\<rparr>) True (start ())) =
     Inl RemoteCallFailure \<and>
   page (snd (main dates_down plain_tables
          (Some \<lparr>file_type = lit ''text/plain'', getvalue = lit ''An NDA'',
             docx_paragraphs = Inl LibraryError, pdf_pages = Inl LibraryError\<rparr>) True (start ()))) =
     analysis_page (lit ''An NDA'') \<and>
   length (requests (snd (main dates_down plain_tables
          (Some \<lparr>file_type = lit ''text/plain'', getvalue = lit ''An NDA'',
             docx_paragraphs = Inl LibraryError, pdf_pages = Inl LibraryError\<rparr>) True (start ())))) = 3 \<and>
   Write (lit ''ok'') \<notin> set (page (snd (main dates_down plain_tables
          (Some \<lparr>file_type = lit ''text/plain'', getvalue = lit ''An NDA'',
             docx_paragraphs = Inl LibraryError, pdf_pages = Inl LibraryError\<rparr>) True (start ()))))"
proof -
  let ?file = "\<lparr>file_type = lit ''text/plain'', getvalue = lit ''An NDA'',
       docx_paragraphs = Inl LibraryError, pdf_pages = Inl LibraryError\<rparr>"
  let ?text = "lit ''An NDA''"
  let ?s0 = "\<lparr>page = analysis_page ?text, requests = [], world = ()\<rparr>"
  let ?s1 = "snd (summarize dates_down ?text ?s0)"
  let ?s2 = "snd (get_obligations dates_down ?text ?s1)"
  let ?s3 = "snd (extract_important_dates dates_down ?text ?s2)"
  have ne: "?text \<noteq> []"
    by (simp add: lit_def)
  have h1: "summarize dates_down ?text ?s0 = (Inr (lit ''ok''), ?s1)"
    using dates_down_calls(1) [of ?text ?s0] by (simp add: prod_eq_iff)
  have h2: "get_obligations dates_down ?text ?s1 = (Inr (lit ''ok''), ?s2)"
    using dates_down_calls(2) [of ?text ?s1] by (simp add: prod_eq_iff)
  have h3: "extract_important_dates dates_down ?text ?s2 = (Inl RemoteCallFailure, ?s3)"
    using dates_down_calls(3) [of ?text ?s2] by (simp add: prod_eq_iff)
  note run = dates_failure [OF nda_file_text ne h1 h2 h3]
  have "Write (lit ''ok'') \<notin> set (analysis_page ?text)"
    by (simp add: analysis_page_def preview_def lit_def)
  then show ?thesis
    using run by simp
qed

text \<open>
  C7, amended. The five narrative calls run one after the other with no exception handler.
  If the summary and the obligations requests succeed and the dates request fails, the
  exception leaves \<open>main\<close> in the state the failed request left: the termination and
  confidentiality requests are not sent, the clause checks are not run, and nothing of the
  analysis is displayed.
\<close>

theorem dates_failure_ends_run:
  "extract_text file = Inr (Some text) \<and> text \<noteq> [] \<and>
   summarize chat text \<lparr>page = analysis_page text, requests = [], world = w\<rparr> = (Inr summary, s1) \<and>
   get_obligations chat text s1 = (Inr obligations, s2) \<and>
   extract_important_dates chat text s2 = (Inl e, s3) \<longrightarrow>
     main chat U (Some file) True (start w) = (Inl e, s3) \<and>
     page s3 = analysis_page text \<and> length (requests s3) = 3"
proof
  assume a: "extract_text file = Inr (Some text) \<and> text \<noteq> [] \<and>
   summarize chat text \<lparr>page = analysis_page text, requests = [], world = w\<rparr> = (Inr summary, s1) \<and>
   get_obligations chat text s1 = (Inr obligations, s2) \<and>
   extract_important_dates chat text s2 = (Inl e, s3)"
  then have ex: "extract_text file = Inr (Some text)" and ne: "text \<noteq> []"
    and h1: "summarize chat text \<lparr>page = analysis_page text, requests = [], world = w\<rparr> = (Inr summary, s1)"
    and h2: "get_obligations chat text s1 = (Inr obligations, s2)"
    and h3: "extract_important_dates chat text s2 = (Inl e, s3)"
    by simp_all
  show "main chat U (Some file) True (start w) = (Inl e, s3) \<and>
     page s3 = analysis_page text \<and> length (requests s3) = 3"
    using dates_failure [OF ex ne h1 h2 h3] by simp
qed

text \<open>The theorem at a text file holding \<open>An NDA\<close> and the service that fails on dates.\<close>

theorem dates_failure_ends_run_witness:
  "extract_text \<lparr>file_type = lit ''text/plain'', getvalue = lit ''An NDA'',
       docx_paragraphs = Inl LibraryError, pdf_pages = Inl LibraryError\<rparr> = Inr (Some (lit ''An NDA'')) \<and>
   lit ''An NDA'' \<noteq> [] \<and>
   fst (summarize dates_down (lit ''An NDA'')
          \<lparr>page = analysis_page (lit ''An NDA''), requests = [], world = ()\<rparr>) = Inr (lit ''ok'') \<and>
   fst (get_obligations dates_down (lit ''An NDA'')
          (snd (summarize dates_down (lit ''An NDA'')
             \<lparr>page = analysis_page (lit ''An NDA''), requests = [], world = ()\<rparr>))) = Inr (lit ''ok'') \<and>
   fst (extract_important_dates dates_down (lit ''An NDA'')
          (snd (get_obligations dates_down (lit ''An NDA'')
             (snd (summarize dates_down (lit ''An NDA'')
                \<lparr>page = analysis_page (lit ''An NDA''), requests = [], world = ()\<rparr>))))) =
     Inl RemoteCallFailure \<and>
   fst (main dates_down plain_tables
          (Some \<lparr>file_type = lit ''text/plain'', getvalue = lit ''An NDA'',
             docx_paragraphs = Inl LibraryError, pdf_pages = Inl LibraryError\<rparr>) True (start ())) =
     Inl RemoteCallFailure \<and>
   page (snd (main dates_down plain_tables
          (Some \<lparr>file_type = lit ''text/plain'', getvalue = lit ''An NDA'',
             docx_paragraphs = Inl LibraryError, pdf_pages = Inl LibraryError\<rparr>) True (start ()))) =
     analysis_page (lit ''An NDA'')"
proof -
  let ?file = "\<lparr>file_type = lit ''text/plain'', getvalue = lit ''An NDA'',
       docx_paragraphs = Inl LibraryError, pdf_pages = Inl LibraryError\<rparr>"
  let ?text = "lit ''An NDA''"
  let ?s0 = "\<lparr>page = analysis_page ?text, requests = [], world = ()\<rparr>"
  let ?s1 = "snd (summarize dates_down ?text ?s0)"
  let ?s2 = "snd (get_obligations dates_down ?text ?s1)"
  let ?s3 = "snd (extract_important_dates dates_down ?text ?s2)"
  have ne: "?text \<noteq> []"
    by (simp add: lit_def)
  have h1: "summarize dates_down ?text ?s0 = (Inr (lit ''ok''), ?s1)"
    using dates_down_calls(1) [of ?text ?s0] by (simp add: prod_eq_iff)
  have h2: "get_obligations dates_down ?text ?s1 = (Inr (lit ''ok''), ?s2)"
    using dates_down_calls(2) [of ?text ?s1] by (simp add: prod_eq_iff)
  have h3: "extract_important_dates dates_down ?text ?s2 = (Inl RemoteCallFailure, ?s3)"
    using dates_down_calls(3) [of ?text ?s2] by (simp add: prod_eq_iff)
  have "main dates_down plain_tables (Some ?file) True (start ()) = (Inl RemoteCallFailure, ?s3) \<and>
     page ?s3 = analysis_page ?text \<and> length (requests ?s3) = 3"
    using dates_failure_ends_run [of ?file ?text dates_down "()" "lit ''ok''" ?s1 "lit ''ok''" ?s2
        RemoteCallFailure ?s3 plain_tables]
      nda_file_text ne h1 h2 h3
    by blast
  then show ?thesis
    using nda_file_text ne dates_down_calls(1) [of ?text ?s0] dates_down_calls(2) [of ?text ?s1]
      dates_down_calls(3) [of ?text ?s2]
    by simp
qed

end
